theory Spec2Isabelle
  imports Complex_Main "HOL-Library.Multiset" "HOL-Library.Product_Lexorder" "HOL-Library.Sublist"
begin

unbundle bit_operations_syntax

section \<open>Python strings\<close>

text \<open>
  A Python \<open>str\<close> is a sequence of code points and \<open>len\<close> counts code points. It is
  modelled as a \<^typ>\<open>string\<close> whose characters are the code points U+0000 to U+00FF, so
  that the copyright sign of the noise patterns is the single character \<open>CHR 0xA9\<close>.
  The character classes below are those of the Unicode database on that range, which is
  what \<open>str.isspace\<close>, \<open>str.isdigit\<close>, \<open>str.isupper\<close>, \<open>str.islower\<close> and \<open>str.lower\<close>
  consult. No character of the range is title case, and lowercasing maps every character
  of the range to one character of the range.
\<close>

definition ord :: "char \<Rightarrow> nat" where
  "ord c = of_char c"

definition ch_isspace :: "char \<Rightarrow> bool" where
  "ch_isspace c = (let n = ord c in (9 \<le> n \<and> n \<le> 13) \<or> (28 \<le> n \<and> n \<le> 32) \<or> n = 133 \<or> n = 160)"

definition ch_isdigit :: "char \<Rightarrow> bool" where
  "ch_isdigit c = (let n = ord c in (48 \<le> n \<and> n \<le> 57) \<or> n = 178 \<or> n = 179 \<or> n = 185)"

definition ch_isupper :: "char \<Rightarrow> bool" where
  "ch_isupper c = (let n = ord c in (65 \<le> n \<and> n \<le> 90) \<or> (192 \<le> n \<and> n \<le> 222 \<and> n \<noteq> 215))"

definition ch_islower :: "char \<Rightarrow> bool" where
  "ch_islower c = (let n = ord c in (97 \<le> n \<and> n \<le> 122) \<or> n = 170 \<or> n = 181 \<or> n = 186
     \<or> (223 \<le> n \<and> n \<le> 255 \<and> n \<noteq> 247))"

definition ch_lower :: "char \<Rightarrow> char" where
  "ch_lower c = (if ch_isupper c then char_of (ord c + 32) else c)"

text \<open>\<open>s.strip()\<close>: leading and trailing whitespace removed.\<close>

definition strip :: "string \<Rightarrow> string" where
  "strip s = rev (dropWhile ch_isspace (rev (dropWhile ch_isspace s)))"

text \<open>\<open>s.lower()\<close>.\<close>

definition lower :: "string \<Rightarrow> string" where
  "lower s = map ch_lower s"

text \<open>
  \<open>s.isupper()\<close>: no character is lowercase (or title case) and at least one is
  uppercase. \<open>s.isdigit()\<close>: at least one character, and all are digits.
\<close>

definition isupper :: "string \<Rightarrow> bool" where
  "isupper s = (\<not> list_ex ch_islower s \<and> list_ex ch_isupper s)"

definition isdigit :: "string \<Rightarrow> bool" where
  "isdigit s = (s \<noteq> [] \<and> list_all ch_isdigit s)"

text \<open>\<open>sub in s\<close>: \<open>sub\<close> occurs in \<open>s\<close> as a contiguous run.\<close>

fun contains :: "string \<Rightarrow> string \<Rightarrow> bool" where
  "contains [] sub = (sub = [])"
| "contains (c # cs) sub = (take (length sub) (c # cs) = sub \<or> contains cs sub)"

text \<open>\<open>s.count(c)\<close> for a pattern of one character.\<close>

definition count :: "string \<Rightarrow> char \<Rightarrow> nat" where
  "count s c = count_list s c"

text \<open>\<open>sep.join(xs)\<close>.\<close>

fun join :: "string \<Rightarrow> string list \<Rightarrow> string" where
  "join sep [] = []"
| "join sep [x] = x"
| "join sep (x # y # ys) = x @ sep @ join sep (y # ys)"

section \<open>Body-text filter\<close>

definition noise_patterns :: "string list" where
  "noise_patterns =
     [''www.'', ''http'', ''.com'', ''appendix'', ''copyright'', [CHR 0xA9], ''table'', ''figure'']"

text \<open>The loop over the noise patterns, which returns at the first pattern found.\<close>

fun noise_loop :: "string list \<Rightarrow> string \<Rightarrow> bool" where
  "noise_loop [] text_lower = False"
| "noise_loop (pattern # rest) text_lower =
     (if contains text_lower pattern then True else noise_loop rest text_lower)"

definition is_likely_body_text :: "string \<Rightarrow> bool" where
  "is_likely_body_text text =
     (if length text > 400 \<and> \<not> isupper text then True
      else if isdigit text \<or> (length text \<le> 3 \<and> isdigit text) then True
      else
        let text_lower = lower text in
        if noise_loop noise_patterns text_lower then True
        else if length (strip text) \<le> 1 then True
        else if contains text ''@'' \<or> contains text_lower ''http'' then True
        else if isupper text \<and> length text < 15 then True
        else if contains text ''-'' \<or> contains text '':'' then
          (if count text (CHR ''-'') > 3 \<or> count text (CHR '':'') > 2 then True else False)
        else False)"

section \<open>The layout provider\<close>

text \<open>
  The PDF library is outside the repository. What the extractor reads from it is a
  document of pages, each with a width and a list of blocks; a block may lack the
  \<open>lines\<close> key (an image block); a line is the list under its \<open>spans\<close> key, empty when
  the key is absent; a span carries its text, font size, style flags and bounding box
  \<open>(x0, y0, x1, y1)\<close>. Loading a page and reading its layout may raise: an entry of the
  document is either the error raised or the page.

  Font sizes are Python floats that the code only compares, negates and takes maxima of;
  all of that is exact, and they are modelled as reals. The coordinates of a bounding box
  and the width of a page go through double-precision arithmetic, which rounds: they are
  values of a type \<open>'f\<close>, and the arithmetic on them is a parameter.
\<close>

record 'f span =
  span_text :: string
  span_size :: real
  span_flags :: int
  span_bbox :: "'f \<times> 'f \<times> 'f \<times> 'f"

type_synonym 'f line = "'f span list"

record 'f block =
  block_lines :: "'f line list option"

record 'f page =
  rect_width :: 'f
  page_blocks :: "'f block list"

text \<open>An exception, with the text that \<open>str(e)\<close> gives.\<close>

datatype error = Error string

type_synonym 'f document = "(error + 'f page) list"

record extractor =
  min_font_size :: real
  min_text_length :: int

definition default_extractor :: extractor where
  "default_extractor = \<lparr>min_font_size = 10.0, min_text_length = 3\<rparr>"

text \<open>
  The double-precision arithmetic of the platform, as far as the code uses it on
  coordinates: the four operations, the absolute value, the comparison, and the constants
  \<open>2\<close> and \<open>0.25\<close>.
\<close>

record 'f arith =
  fl_add :: "'f \<Rightarrow> 'f \<Rightarrow> 'f"
  fl_sub :: "'f \<Rightarrow> 'f \<Rightarrow> 'f"
  fl_mul :: "'f \<Rightarrow> 'f \<Rightarrow> 'f"
  fl_div :: "'f \<Rightarrow> 'f \<Rightarrow> 'f"
  fl_abs :: "'f \<Rightarrow> 'f"
  fl_less :: "'f \<Rightarrow> 'f \<Rightarrow> bool"
  fl_two :: 'f
  fl_quarter :: 'f

text \<open>
  Arithmetic on the reals, without rounding. Double-precision arithmetic agrees with it
  wherever no result is rounded, as on the sample pages below, whose coordinates and
  widths are small integers.
\<close>

definition exact_arith :: "real arith" where
  "exact_arith =
     \<lparr>fl_add = (+), fl_sub = (-), fl_mul = (*), fl_div = (/), fl_abs = abs, fl_less = (<),
      fl_two = 2, fl_quarter = 0.25\<rparr>"

text \<open>
  \<open>xs.sort(key=key, reverse=True)\<close>: the list is reversed, sorted stably in ascending
  order and reversed again, so elements with equal keys keep their order.
\<close>

definition sort_reverse :: "('a \<Rightarrow> 'k::linorder) \<Rightarrow> 'a list \<Rightarrow> 'a list" where
  "sort_reverse key xs = rev (sort_key key (rev xs))"

section \<open>Title detector\<close>

definition centered :: "'f arith \<Rightarrow> 'f \<Rightarrow> 'f span \<Rightarrow> bool" where
  "centered ar page_width sp =
     (case span_bbox sp of (x0, y0, x1, y1) \<Rightarrow>
        let center = fl_div ar (fl_add ar x0 x1) (fl_two ar);
            page_center = fl_div ar page_width (fl_two ar)
        in fl_less ar (fl_abs ar (fl_sub ar center page_center))
             (fl_mul ar page_width (fl_quarter ar)))"

text \<open>The loop over the spans of a line; its state is \<open>(line_text, line_centered, max_font_size)\<close>.\<close>

fun title_span_loop ::
  "'f arith \<Rightarrow> extractor \<Rightarrow> 'f \<Rightarrow> 'f span list \<Rightarrow> string \<times> bool \<times> real
     \<Rightarrow> string \<times> bool \<times> real" where
  "title_span_loop ar ex page_width [] st = st"
| "title_span_loop ar ex page_width (sp # rest) (line_text, line_centered, max_font_size) =
     (let text = strip (span_text sp);
          font_size = span_size sp
      in if centered ar page_width sp \<and> font_size \<ge> min_font_size ex
         then title_span_loop ar ex page_width rest
                (line_text @ text @ '' '', True, max max_font_size font_size)
         else title_span_loop ar ex page_width rest (line_text, line_centered, max_font_size))"

fun title_line_loop ::
  "'f arith \<Rightarrow> extractor \<Rightarrow> 'f \<Rightarrow> 'f line list \<Rightarrow> (real \<times> string) list
     \<Rightarrow> (real \<times> string) list" where
  "title_line_loop ar ex page_width [] title_lines = title_lines"
| "title_line_loop ar ex page_width (line # rest) title_lines =
     (case title_span_loop ar ex page_width line ([], False, 0) of
        (line_text, line_centered, max_font_size) \<Rightarrow>
          if line_centered \<and> int (length (strip line_text)) \<ge> min_text_length ex
          then title_line_loop ar ex page_width rest
                 (title_lines @ [(max_font_size, strip line_text)])
          else title_line_loop ar ex page_width rest title_lines)"

fun title_block_loop ::
  "'f arith \<Rightarrow> extractor \<Rightarrow> 'f \<Rightarrow> 'f block list \<Rightarrow> (real \<times> string) list
     \<Rightarrow> (real \<times> string) list" where
  "title_block_loop ar ex page_width [] title_lines = title_lines"
| "title_block_loop ar ex page_width (b # rest) title_lines =
     (case block_lines b of
        None \<Rightarrow> title_block_loop ar ex page_width rest title_lines
      | Some lines \<Rightarrow>
          title_block_loop ar ex page_width rest (title_line_loop ar ex page_width lines title_lines))"

text \<open>The \<open>try\<close> of \<open>extract_title\<close> turns every exception into the empty title.\<close>

definition extract_title :: "'f arith \<Rightarrow> extractor \<Rightarrow> 'f document \<Rightarrow> string" where
  "extract_title ar ex doc =
     (if length doc = 0 then []
      else case doc ! 0 of
             Inl e \<Rightarrow> []
           | Inr first_page \<Rightarrow>
               let title_lines =
                     title_block_loop ar ex (rect_width first_page) (page_blocks first_page) []
               in if title_lines \<noteq> [] then
                    let sorted_lines = sort_reverse fst title_lines;
                        top_lines = map snd (take 2 sorted_lines)
                    in strip (join '' '' top_lines)
                  else [])"

section \<open>Span aggregator\<close>

text \<open>A font info tuple \<open>(text, font_size, is_bold, page_number)\<close>.\<close>

type_synonym font_tuple = "string \<times> real \<times> bool \<times> int"

definition ft_text :: "font_tuple \<Rightarrow> string" where
  "ft_text x = fst x"

definition ft_size :: "font_tuple \<Rightarrow> real" where
  "ft_size x = fst (snd x)"

definition ft_bold :: "font_tuple \<Rightarrow> bool" where
  "ft_bold x = fst (snd (snd x))"

definition ft_page :: "font_tuple \<Rightarrow> int" where
  "ft_page x = snd (snd (snd x))"

text \<open>The loop over the spans of a line; its state is \<open>(line_text, font_size, is_bold)\<close>.\<close>

fun info_span_loop :: "'f span list \<Rightarrow> string \<times> real \<times> bool \<Rightarrow> string \<times> real \<times> bool" where
  "info_span_loop [] st = st"
| "info_span_loop (sp # rest) (line_text, font_size, is_bold) =
     (let text = strip (span_text sp);
          sz = span_size sp;
          flags = span_flags sp
      in if text \<noteq> []
         then info_span_loop rest
                (line_text @ text @ '' '', max font_size sz, is_bold \<or> (flags AND 16) \<noteq> 0)
         else info_span_loop rest (line_text, font_size, is_bold))"

fun info_line_loop ::
  "extractor \<Rightarrow> 'f line list \<Rightarrow> (string \<times> real \<times> bool) list \<Rightarrow> (string \<times> real \<times> bool) list" where
  "info_line_loop ex [] block_lns = block_lns"
| "info_line_loop ex (line # rest) block_lns =
     (case info_span_loop line ([], 0, False) of
        (line_text0, font_size, is_bold) \<Rightarrow>
          let line_text = strip line_text0
          in if line_text \<noteq> [] \<and> font_size \<ge> min_font_size ex
             then info_line_loop ex rest (block_lns @ [(line_text, font_size, is_bold)])
             else info_line_loop ex rest block_lns)"

fun info_block_loop ::
  "extractor \<Rightarrow> int \<Rightarrow> 'f block list \<Rightarrow> font_tuple list \<Rightarrow> font_tuple list" where
  "info_block_loop ex page_num [] font_info = font_info"
| "info_block_loop ex page_num (b # rest) font_info =
     (case block_lines b of
        None \<Rightarrow> info_block_loop ex page_num rest font_info
      | Some lines \<Rightarrow>
          let block_lns = info_line_loop ex lines []
          in if block_lns \<noteq> [] then
               let combined_text = strip (join '' '' (map fst block_lns));
                   max_font_size = Max (set (map (\<lambda>line. fst (snd line)) block_lns));
                   bold = list_ex (\<lambda>line. snd (snd line)) block_lns
               in if int (length combined_text) \<ge> min_text_length ex
                     \<and> \<not> is_likely_body_text combined_text
                  then if max_font_size > 12 \<or> bold
                       then info_block_loop ex page_num rest
                              (font_info @ [(combined_text, max_font_size, bold, page_num + 1)])
                       else info_block_loop ex page_num rest font_info
                  else info_block_loop ex page_num rest font_info
             else info_block_loop ex page_num rest font_info)"

text \<open>The loop over the pages; a page that cannot be read ends it with the exception.\<close>

fun info_page_loop ::
  "extractor \<Rightarrow> int \<Rightarrow> (error + 'f page) list \<Rightarrow> font_tuple list \<Rightarrow> error + font_tuple list" where
  "info_page_loop ex page_num [] font_info = Inr font_info"
| "info_page_loop ex page_num (p # rest) font_info =
     (case p of
        Inl e \<Rightarrow> Inl e
      | Inr pg \<Rightarrow>
          info_page_loop ex (page_num + 1) rest
            (info_block_loop ex page_num (page_blocks pg) font_info))"

definition extract_font_info :: "extractor \<Rightarrow> 'f document \<Rightarrow> error + font_tuple list" where
  "extract_font_info ex doc = info_page_loop ex 0 doc []"

section \<open>Heading leveler\<close>

record heading =
  level :: string
  heading_text :: string
  page_no :: int

definition heading_levels :: "string list" where
  "heading_levels = [''H1'', ''H2'', ''H3'']"

text \<open>The loop that fills \<open>size_to_level\<close> from the enumerated leading font sizes.\<close>

fun level_assign_loop :: "(nat \<times> real) list \<Rightarrow> (real \<rightharpoonup> string) \<Rightarrow> (real \<rightharpoonup> string)" where
  "level_assign_loop [] size_to_level = size_to_level"
| "level_assign_loop ((i, sz) # rest) size_to_level =
     level_assign_loop rest (size_to_level(sz \<mapsto> heading_levels ! i))"

text \<open>
  The distinct font sizes, largest first, and the level of each of the first three. The
  set comprehension is listed in some order (\<^const>\<open>remdups\<close> gives one); the sort that
  follows makes the result independent of it.
\<close>

definition font_sizes_of :: "font_tuple list \<Rightarrow> real list" where
  "font_sizes_of font_info = sort_reverse (\<lambda>x. x) (remdups (map ft_size font_info))"

definition size_to_level_of :: "font_tuple list \<Rightarrow> (real \<rightharpoonup> string)" where
  "size_to_level_of font_info =
     level_assign_loop
       (enumerate 0 (take (length heading_levels) (font_sizes_of font_info))) Map.empty"

text \<open>The loop that emits the headings; \<open>seen\<close> holds the lowercased texts emitted so far.\<close>

fun heading_loop ::
  "(real \<rightharpoonup> string) \<Rightarrow> font_tuple list \<Rightarrow> string set \<Rightarrow> heading list \<Rightarrow> heading list" where
  "heading_loop size_to_level [] seen headings = headings"
| "heading_loop size_to_level ((text, font_size, is_bold, page_num) # rest) seen headings =
     (case size_to_level font_size of
        None \<Rightarrow> heading_loop size_to_level rest seen headings
      | Some lv \<Rightarrow>
          let cleaned = strip text
          in if lower cleaned \<in> seen
             then heading_loop size_to_level rest seen headings
             else heading_loop size_to_level rest (insert (lower cleaned) seen)
                    (headings @ [\<lparr>level = lv, heading_text = cleaned, page_no = page_num\<rparr>]))"

text \<open>
  \<open>determine_heading_levels\<close> sorts the caller's list in place, twice. The model returns
  the list as the call leaves it together with the headings.
\<close>

definition determine_heading_levels :: "font_tuple list \<Rightarrow> font_tuple list \<times> heading list" where
  "determine_heading_levels font_info =
     (if font_info = [] then (font_info, [])
      else
        let font_info1 = sort_reverse (\<lambda>x. (ft_page x, ft_size x)) font_info;
            size_to_level = size_to_level_of font_info1;
            font_info2 = sort_key (\<lambda>x. (ft_page x, - ft_size x)) font_info1
        in (font_info2, heading_loop size_to_level font_info2 {} []))"

section \<open>Outline orchestrator\<close>

record outline_result =
  title :: string
  outline :: "heading list"

text \<open>
  What a call of \<open>extract_outline\<close> leaves behind: the value returned, the lines printed
  and the state of the document handle.
\<close>

datatype handle = Not_opened | Opened | Closed

record call =
  returned :: outline_result
  printed :: "string list"
  doc_handle :: handle

definition error_line :: "string \<Rightarrow> error \<Rightarrow> string" where
  "error_line pdf_path e = (case e of Error msg \<Rightarrow> ''Error processing '' @ pdf_path @ '': '' @ msg)"

definition failed :: "string \<Rightarrow> error \<Rightarrow> handle \<Rightarrow> call" where
  "failed pdf_path e h =
     \<lparr>returned = \<lparr>title = [], outline = []\<rparr>, printed = [error_line pdf_path e], doc_handle = h\<rparr>"

text \<open>
  \<open>fitz_open\<close> stands for \<open>fitz.open\<close>: the file at a path either fails to open or is a
  document. The handler of \<open>extract_outline\<close> prints the error and returns the empty
  result; it does not touch the handle.
\<close>

definition extract_outline ::
  "'f arith \<Rightarrow> extractor \<Rightarrow> (string \<Rightarrow> error + 'f document) \<Rightarrow> string \<Rightarrow> call" where
  "extract_outline ar ex fitz_open pdf_path =
     (case fitz_open pdf_path of
        Inl e \<Rightarrow> failed pdf_path e Not_opened
      | Inr doc \<Rightarrow>
          let title0 = extract_title ar ex doc
          in case extract_font_info ex doc of
               Inl e \<Rightarrow> failed pdf_path e Opened
             | Inr font_info \<Rightarrow>
                 let headings = snd (determine_heading_levels font_info);
                     filtered_outline =
                       filter (\<lambda>h. lower (strip (heading_text h)) \<noteq> lower (strip title0)) headings
                 in \<lparr>returned = \<lparr>title = strip title0, outline = filtered_outline\<rparr>,
                     printed = [], doc_handle = Closed\<rparr>)"

section \<open>Sample documents\<close>

text \<open>
  A title page with one centred line at size 24; a second page with two heading
  candidates and an image block; a document whose second page cannot be read.
\<close>

definition title_page :: "real page" where
  "title_page =
     \<lparr>rect_width = 612,
      page_blocks =
        [\<lparr>block_lines = Some
            [[\<lparr>span_text = ''Annual Report 2024'', span_size = 24, span_flags = 0,
               span_bbox = (200, 100, 412, 130)\<rparr>]]\<rparr>]\<rparr>"

definition overview_page :: "real page" where
  "overview_page =
     \<lparr>rect_width = 612,
      page_blocks =
        [\<lparr>block_lines = Some
            [[\<lparr>span_text = ''Annual Report 2024 Overview'', span_size = 18, span_flags = 0,
               span_bbox = (72, 100, 300, 120)\<rparr>]]\<rparr>,
         \<lparr>block_lines = None\<rparr>,
         \<lparr>block_lines = Some
            [[\<lparr>span_text = '' ANNUAL REPORT 2024 '', span_size = 18, span_flags = 16,
               span_bbox = (72, 200, 300, 220)\<rparr>]]\<rparr>]\<rparr>"

definition report_document :: "real document" where
  "report_document = [Inr title_page, Inr overview_page]"

definition damaged_document :: "real document" where
  "damaged_document = [Inr title_page, Inl (Error ''cannot load page'')]"

section \<open>The leveler's contract\<close>

text \<open>
  The notions in which the contract of the leveler is stated. The processing order is by
  page ascending, then by font size descending. The rank of a size is the number of
  distinct sizes of the document that are larger; the sizes of rank 0, 1 and 2 have the
  levels \<open>H1\<close>, \<open>H2\<close> and \<open>H3\<close>. The key of a text is the text trimmed, then lowercased.
\<close>

definition page_then_size :: "font_tuple \<Rightarrow> font_tuple \<Rightarrow> bool" where
  "page_then_size a b =
     (ft_page a < ft_page b \<or> (ft_page a = ft_page b \<and> ft_size b \<le> ft_size a))"

definition processing_order :: "font_tuple list \<Rightarrow> font_tuple list" where
  "processing_order font_info = sort_key (\<lambda>x. (ft_page x, - ft_size x)) font_info"

definition rank_of :: "font_tuple list \<Rightarrow> real \<Rightarrow> nat" where
  "rank_of font_info s = length (filter (\<lambda>x. s < x) (remdups (map ft_size font_info)))"

definition level_of :: "font_tuple list \<Rightarrow> real \<Rightarrow> string option" where
  "level_of font_info s =
     (if s \<in> set (map ft_size font_info) \<and> rank_of font_info s < 3
      then Some (heading_levels ! rank_of font_info s) else None)"

definition text_key :: "string \<Rightarrow> string" where
  "text_key s = lower (strip s)"

definition heading_for :: "font_tuple list \<Rightarrow> font_tuple \<Rightarrow> heading" where
  "heading_for font_info t =
     \<lparr>level = heading_levels ! rank_of font_info (ft_size t),
      heading_text = strip (ft_text t),
      page_no = ft_page t\<rparr>"

text \<open>The candidates: the tuples whose size has a level, in processing order.\<close>

definition candidates :: "font_tuple list \<Rightarrow> font_tuple list" where
  "candidates font_info =
     filter (\<lambda>t. rank_of font_info (ft_size t) < 3) (processing_order font_info)"

text \<open>The first element of a list for each key, in the order of the list.\<close>

fun first_occurrences :: "('a \<Rightarrow> 'k) \<Rightarrow> 'a list \<Rightarrow> 'a list" where
  "first_occurrences key [] = []"
| "first_occurrences key (x # xs) =
     x # first_occurrences key (filter (\<lambda>y. key y \<noteq> key x) xs)"

definition emitted :: "font_tuple list \<Rightarrow> font_tuple list" where
  "emitted font_info = first_occurrences (\<lambda>t. text_key (ft_text t)) (candidates font_info)"

text \<open>The seniority of a level: its position in \<open>heading_levels\<close>.\<close>

definition seniority :: "string \<Rightarrow> nat" where
  "seniority l = length (takeWhile (\<lambda>x. x \<noteq> l) heading_levels)"

definition heading_order :: "heading \<Rightarrow> heading \<Rightarrow> bool" where
  "heading_order a b =
     (page_no a < page_no b
      \<or> (page_no a = page_no b \<and> seniority (level a) \<le> seniority (level b)))"

section \<open>Sample candidates\<close>

text \<open>
  The candidates of the end-to-end scenario, whatever their bold flags; a list passed out
  of order, with four distinct sizes; a list with a heading repeated on later pages at
  other sizes; a list with three candidates of one page and one size.
\<close>

definition scenario_candidates :: "bool \<Rightarrow> bool \<Rightarrow> bool \<Rightarrow> font_tuple list" where
  "scenario_candidates b1 b2 b3 =
     [(''Chapter 1'', 18, b1, 1), (''Section 1.1'', 14, b2, 2), (''Section 1.2'', 14, b3, 2)]"

definition unordered_candidates :: "font_tuple list" where
  "unordered_candidates =
     [(''Terms'', 16, False, 3), (''Scope'', 14, False, 2), (''Aims'', 18, True, 1),
      (''Method'', 18, False, 2), (''Notes'', 12.5, True, 1)]"

definition repeated_candidates :: "font_tuple list" where
  "repeated_candidates =
     [(''Intro'', 18, False, 1), ('' INTRO '', 14, True, 2), (''Scope'', 14, False, 2),
      (''intro'', 18, False, 3)]"

definition tied_candidates :: "font_tuple list" where
  "tied_candidates =
     [(''Zeta'', 14, False, 2), (''Alpha'', 14, True, 2), (''Top'', 18, False, 1),
      (''Mid'', 14, False, 2)]"

section \<open>The title detector's contract\<close>

















section \<open>Properties of the body-text filter\<close>






section \<open>Properties of the string operations\<close>

lemma strip_front: "dropWhile ch_isspace (strip s) = strip s"
proof -
  define u where "u = dropWhile ch_isspace s"
  define t where "t = rev (dropWhile ch_isspace (rev u))"
  have u: "u = [] \<or> \<not> ch_isspace (hd u)"
    unfolding u_def by (metis hd_dropWhile)
  have "rev u = takeWhile ch_isspace (rev u) @ dropWhile ch_isspace (rev u)"
    by simp
  then have split: "u = t @ rev (takeWhile ch_isspace (rev u))"
    unfolding t_def by (metis rev_append rev_rev_ident)
  have "t = [] \<or> \<not> ch_isspace (hd t)"
  proof (cases "t = []")
    case True
    then show ?thesis by simp
  next
    case False
    with split have "hd t = hd u" and "u \<noteq> []"
      by (metis hd_append2, metis append_is_Nil_conv)
    with u show ?thesis by simp
  qed
  then have "dropWhile ch_isspace t = t"
    by (simp add: dropWhile_eq_self_iff)
  then show ?thesis
    by (simp add: strip_def t_def u_def)
qed

lemma strip_strip: "strip (strip s) = strip s"
proof -
  have "strip (strip s) = rev (dropWhile ch_isspace (rev (dropWhile ch_isspace (strip s))))"
    by (rule strip_def)
  also have "\<dots> = rev (dropWhile ch_isspace (rev (strip s)))"
    by (simp only: strip_front)
  also have "\<dots> = strip s"
    by (simp add: strip_def)
  finally show ?thesis .
qed

section \<open>Properties of the orchestrator\<close>

lemma info_page_loop_fails:
  "Inl e \<in> set ps \<Longrightarrow> \<exists>e'. Inl e' \<in> set ps \<and> info_page_loop ex n ps fi = Inl e'"
  by (induction ps arbitrary: n fi) (auto split: sum.splits)

text \<open>
  C1. The claim is that the document handle is closed before \<open>extract_outline\<close> returns
  on every path. On the document whose second page cannot be read, font-info collection
  raises, the handler returns the empty result, and the handle is still open: only the
  success path calls \<open>close\<close>.
\<close>

theorem handle_left_open_on_read_failure:
  "extract_outline ar default_extractor (\<lambda>pdf_path. Inr damaged_document) ''report.pdf''
   = \<lparr>returned = \<lparr>title = [], outline = []\<rparr>,
      printed = [''Error processing report.pdf: cannot load page''],
      doc_handle = Opened\<rparr>"
proof -
  have "extract_font_info default_extractor damaged_document
      = Inl (Error ''cannot load page'')"
    by code_simp
  then show ?thesis
    by (simp add: extract_outline_def failed_def error_line_def)
qed

text \<open>
  C6. No entry of the returned outline has a lowercased trimmed text equal to the
  lowercased trimmed title; when the document opens and is read, the title returned is the
  trimmed detected title and the outline is the list of levelled headings without exactly
  the records whose lowercased trimmed text equals the lowercased trimmed title.
\<close>

theorem title_removed_from_outline:
  "(\<forall>h \<in> set (outline (returned (extract_outline ar ex fitz_open pdf_path))).
      lower (strip (heading_text h))
        \<noteq> lower (strip (title (returned (extract_outline ar ex fitz_open pdf_path)))))
   \<and> (fitz_open pdf_path = Inr doc \<and> extract_font_info ex doc = Inr font_info \<longrightarrow>
        title (returned (extract_outline ar ex fitz_open pdf_path)) = strip (extract_title ar ex doc)
        \<and> outline (returned (extract_outline ar ex fitz_open pdf_path))
            = filter (\<lambda>h. lower (strip (heading_text h)) \<noteq> lower (strip (extract_title ar ex doc)))
                (snd (determine_heading_levels font_info)))"
  by (auto simp: extract_outline_def failed_def Let_def strip_strip split: sum.splits)

text \<open>
  At the sample report the title heading of page 1 is removed, and the heading of page 2
  that merely contains the title is kept.
\<close>

theorem title_removed_from_outline_witness:
  "extract_font_info default_extractor report_document
     = Inr [(''Annual Report 2024'', 24, False, 1), (''Annual Report 2024 Overview'', 18, False, 2),
            (''ANNUAL REPORT 2024'', 18, True, 2)]
   \<and> returned (extract_outline exact_arith default_extractor (\<lambda>pdf_path. Inr report_document) ''report.pdf'')
      = \<lparr>title = ''Annual Report 2024'',
         outline = [\<lparr>level = ''H2'', heading_text = ''Annual Report 2024 Overview'', page_no = 2\<rparr>]\<rparr>"
proof -
  let ?c = "extract_outline exact_arith default_extractor (\<lambda>pdf_path. Inr report_document) ''report.pdf''"
  have fi: "extract_font_info default_extractor report_document
     = Inr [(''Annual Report 2024'', 24, False, 1), (''Annual Report 2024 Overview'', 18, False, 2),
            (''ANNUAL REPORT 2024'', 18, True, 2)]"
    by code_simp
  have ti: "extract_title exact_arith default_extractor report_document = ''Annual Report 2024''"
    by code_simp
  have hs: "snd (determine_heading_levels
       [(''Annual Report 2024'', 24, False, 1), (''Annual Report 2024 Overview'', 18, False, 2),
            (''ANNUAL REPORT 2024'', 18, True, 2)])
     = [\<lparr>level = ''H1'', heading_text = ''Annual Report 2024'', page_no = 1\<rparr>,
        \<lparr>level = ''H2'', heading_text = ''Annual Report 2024 Overview'', page_no = 2\<rparr>]"
    by code_simp
  have k1: "lower (strip ''Annual Report 2024'') = ''annual report 2024''" by code_simp
  have k2: "lower (strip ''Annual Report 2024 Overview'') = ''annual report 2024 overview''"
    by code_simp
  have k3: "strip ''Annual Report 2024'' = ''Annual Report 2024''" by code_simp
  have k4: "lower ''Annual Report 2024'' = ''annual report 2024''" by code_simp
  have r: "returned ?c = \<lparr>title = title (returned ?c), outline = outline (returned ?c)\<rparr>"
    by simp
  show ?thesis
    using title_removed_from_outline [of exact_arith default_extractor
        "\<lambda>pdf_path. Inr report_document"
        "''report.pdf''" report_document
        "[(''Annual Report 2024'', 24, False, 1), (''Annual Report 2024 Overview'', 18, False, 2),
            (''ANNUAL REPORT 2024'', 18, True, 2)]"] fi
    apply (simp only: ti hs k3 simp_thms)
    apply (subst r)
    apply (simp add: k1 k2 k4)
    done
qed

text \<open>
  C8. When the file cannot be opened, and when it opens but one of its pages cannot be
  read, \<open>extract_outline\<close> returns the empty result and prints one line made of the
  file path and the text of the error; the call has a value in every case, so nothing is
  propagated to the caller.
\<close>

theorem failure_yields_empty_result:
  "(fitz_open pdf_path = Inl (Error msg) \<longrightarrow>
      returned (extract_outline ar ex fitz_open pdf_path) = \<lparr>title = [], outline = []\<rparr>
      \<and> printed (extract_outline ar ex fitz_open pdf_path)
          = [''Error processing '' @ pdf_path @ '': '' @ msg])
   \<and> (fitz_open pdf_path = Inr doc \<and> Inl e \<in> set doc \<longrightarrow>
        (\<exists>msg'. Inl (Error msg') \<in> set doc
          \<and> returned (extract_outline ar ex fitz_open pdf_path) = \<lparr>title = [], outline = []\<rparr>
          \<and> printed (extract_outline ar ex fitz_open pdf_path)
              = [''Error processing '' @ pdf_path @ '': '' @ msg']))"
proof (intro conjI impI)
  assume "fitz_open pdf_path = Inl (Error msg)"
  then show "returned (extract_outline ar ex fitz_open pdf_path) = \<lparr>title = [], outline = []\<rparr>"
    and "printed (extract_outline ar ex fitz_open pdf_path)
          = [''Error processing '' @ pdf_path @ '': '' @ msg]"
    by (simp_all add: extract_outline_def failed_def error_line_def)
next
  assume a: "fitz_open pdf_path = Inr doc \<and> Inl e \<in> set doc"
  then obtain e' where e': "Inl e' \<in> set doc" "extract_font_info ex doc = Inl e'"
    unfolding extract_font_info_def using info_page_loop_fails by blast
  obtain m where m: "e' = Error m" by (cases e')
  from a e' m
  have "returned (extract_outline ar ex fitz_open pdf_path) = \<lparr>title = [], outline = []\<rparr>"
    and "printed (extract_outline ar ex fitz_open pdf_path)
              = [''Error processing '' @ pdf_path @ '': '' @ m]"
    by (simp_all add: extract_outline_def failed_def error_line_def Let_def)
  with e' m show "\<exists>msg'. Inl (Error msg') \<in> set doc
          \<and> returned (extract_outline ar ex fitz_open pdf_path) = \<lparr>title = [], outline = []\<rparr>
          \<and> printed (extract_outline ar ex fitz_open pdf_path)
              = [''Error processing '' @ pdf_path @ '': '' @ msg']" by blast
qed

theorem failure_yields_empty_result_witness:
  "returned (extract_outline exact_arith default_extractor (\<lambda>pdf_path. Inl (Error ''cannot open file''))
       ''missing.pdf'') = \<lparr>title = [], outline = []\<rparr>
   \<and> printed (extract_outline exact_arith default_extractor (\<lambda>pdf_path. Inl (Error ''cannot open file''))
       ''missing.pdf'') = [''Error processing missing.pdf: cannot open file'']
   \<and> Inl (Error ''cannot load page'') \<in> set damaged_document
   \<and> returned (extract_outline exact_arith default_extractor (\<lambda>pdf_path. Inr damaged_document)
       ''report.pdf'') = \<lparr>title = [], outline = []\<rparr>
   \<and> printed (extract_outline exact_arith default_extractor (\<lambda>pdf_path. Inr damaged_document)
       ''report.pdf'') = [''Error processing report.pdf: cannot load page'']"
proof -
  have mem: "Inl (Error ''cannot load page'') \<in> set damaged_document"
    by (simp add: damaged_document_def)
  have only: "Inl (Error m) \<in> set damaged_document \<Longrightarrow> m = ''cannot load page''" for m
    by (simp add: damaged_document_def)
  have op_fail:
    "returned (extract_outline exact_arith default_extractor (\<lambda>pdf_path. Inl (Error ''cannot open file''))
       ''missing.pdf'') = \<lparr>title = [], outline = []\<rparr>
     \<and> printed (extract_outline exact_arith default_extractor (\<lambda>pdf_path. Inl (Error ''cannot open file''))
       ''missing.pdf'') = [''Error processing missing.pdf: cannot open file'']"
    using failure_yields_empty_result [of "\<lambda>pdf_path. Inl (Error ''cannot open file'')"
        "''missing.pdf''" "''cannot open file''" exact_arith default_extractor]
    by simp
  let ?c = "extract_outline exact_arith default_extractor (\<lambda>pdf_path. Inr damaged_document) ''report.pdf''"
  have "\<exists>msg'. Inl (Error msg') \<in> set damaged_document
          \<and> returned ?c = \<lparr>title = [], outline = []\<rparr>
          \<and> printed ?c = [''Error processing '' @ ''report.pdf'' @ '': '' @ msg']"
    using failure_yields_empty_result [of "\<lambda>pdf_path. Inr damaged_document"
        "''report.pdf''" _ exact_arith default_extractor damaged_document
        "Error ''cannot load page''"]
      mem
    by blast
  then obtain m where m: "Inl (Error m) \<in> set damaged_document"
      "returned ?c = \<lparr>title = [], outline = []\<rparr>"
      "printed ?c = [''Error processing '' @ ''report.pdf'' @ '': '' @ m]"
    by blast
  from m(1) have "m = ''cannot load page''"
    by (rule only)
  with m have rd_fail:
    "returned ?c = \<lparr>title = [], outline = []\<rparr>
     \<and> printed ?c = [''Error processing report.pdf: cannot load page'']"
    by simp
  from mem op_fail rd_fail show ?thesis by blast
qed

section \<open>Properties of the leveler\<close>

subsection \<open>The two sorts\<close>

lemma two_sorts:
  "sort_key (\<lambda>x. (ft_page x, - ft_size x)) (sort_reverse (\<lambda>x. (ft_page x, ft_size x)) xs)
   = sort_key (\<lambda>x. (ft_page x, - ft_size x)) xs"
proof (rule sym, rule properties_for_sort_key)
  show "mset (sort_key (\<lambda>x. (ft_page x, - ft_size x)) (sort_reverse (\<lambda>x. (ft_page x, ft_size x)) xs))
        = mset xs"
    by (simp add: sort_reverse_def)
next
  fix k
  have same: "(\<lambda>x. (ft_page k, - ft_size k) = (ft_page x, - ft_size x))
      = (\<lambda>x. (ft_page x, ft_size x) = (ft_page k, ft_size k))"
    by (rule ext) auto
  have same2: "(\<lambda>x. (ft_page k, - ft_size k) = (ft_page x, - ft_size x))
      = (\<lambda>x. (ft_page x, - ft_size x) = (ft_page k, - ft_size k))"
    by (rule ext) auto
  have "filter (\<lambda>x. (ft_page k, - ft_size k) = (ft_page x, - ft_size x))
          (sort_key (\<lambda>x. (ft_page x, - ft_size x)) (sort_reverse (\<lambda>x. (ft_page x, ft_size x)) xs))
        = filter (\<lambda>x. (ft_page k, - ft_size k) = (ft_page x, - ft_size x))
            (sort_reverse (\<lambda>x. (ft_page x, ft_size x)) xs)"
    unfolding same2 by (rule sort_key_stable)
  also have "\<dots> = rev (filter (\<lambda>x. (ft_page x, ft_size x) = (ft_page k, ft_size k))
                      (sort_key (\<lambda>x. (ft_page x, ft_size x)) (rev xs)))"
    unfolding same by (simp add: sort_reverse_def rev_filter)
  also have "\<dots> = rev (filter (\<lambda>x. (ft_page x, ft_size x) = (ft_page k, ft_size k)) (rev xs))"
    by (simp only: sort_key_stable)
  also have "\<dots> = filter (\<lambda>x. (ft_page k, - ft_size k) = (ft_page x, - ft_size x)) xs"
    unfolding same by (simp add: rev_filter)
  finally show "filter (\<lambda>x. (ft_page k, - ft_size k) = (ft_page x, - ft_size x))
          (sort_key (\<lambda>x. (ft_page x, - ft_size x)) (sort_reverse (\<lambda>x. (ft_page x, ft_size x)) xs))
        = filter (\<lambda>x. (ft_page k, - ft_size k) = (ft_page x, - ft_size x)) xs" .
next
  show "sorted (map (\<lambda>x. (ft_page x, - ft_size x))
     (sort_key (\<lambda>x. (ft_page x, - ft_size x)) (sort_reverse (\<lambda>x. (ft_page x, ft_size x)) xs)))"
    by simp
qed

lemma fst_determine: "fst (determine_heading_levels fi) = processing_order fi"
  by (simp add: determine_heading_levels_def processing_order_def Let_def two_sorts)

lemma sorted_processing_order: "sorted_wrt page_then_size (processing_order fi)"
proof -
  have "sorted (map (\<lambda>x. (ft_page x, - ft_size x)) (processing_order fi))"
    by (simp add: processing_order_def)
  then have "sorted_wrt (\<lambda>a b. (ft_page a, - ft_size a) \<le> (ft_page b, - ft_size b)) (processing_order fi)"
    by (simp add: sorted_map)
  then show ?thesis
    by (rule sorted_wrt_mono_rel[rotated]) (auto simp: page_then_size_def)
qed

text \<open>
  C9. \<open>determine_heading_levels\<close> leaves the caller's list sorted in place: after the call
  it holds the same tuples, ordered by page ascending and then by font size descending
  (the stable sort of the input by that key), not the order it was passed in. The list
  and the headings are all the call produces.
\<close>

theorem font_info_left_sorted:
  "mset (fst (determine_heading_levels font_info)) = mset font_info
   \<and> sorted_wrt page_then_size (fst (determine_heading_levels font_info))
   \<and> fst (determine_heading_levels font_info)
       = sort_key (\<lambda>x. (ft_page x, - ft_size x)) font_info"
proof -
  have "mset (processing_order font_info) = mset font_info"
    by (simp add: processing_order_def)
  then show ?thesis
    using sorted_processing_order [of font_info]
    by (simp add: fst_determine) (simp add: processing_order_def)
qed

theorem font_info_left_sorted_witness:
  "fst (determine_heading_levels
         [(''Scope'', 14, False, 2), (''Aims'', 18, True, 1), (''Method'', 18, False, 2)])
     = [(''Aims'', 18, True, 1), (''Method'', 18, False, 2), (''Scope'', 14, False, 2)]
   \<and> sorted_wrt page_then_size
        [(''Aims'', 18, True, 1), (''Method'', 18, False, 2), (''Scope'', 14, False, 2)]"
proof -
  have s: "sort_key (\<lambda>x. (ft_page x, - ft_size x))
             [(''Scope'', 14, False, 2), (''Aims'', 18, True, 1), (''Method'', 18, False, 2)]
           = [(''Aims'', 18, True, 1), (''Method'', 18, False, 2), (''Scope'', 14, False, 2)]"
    by code_simp
  note t = font_info_left_sorted
      [of "[(''Scope'', 14, False, 2), (''Aims'', 18, True, 1), (''Method'', 18, False, 2)]"]
  from t have e: "fst (determine_heading_levels
         [(''Scope'', 14, False, 2), (''Aims'', 18, True, 1), (''Method'', 18, False, 2)])
     = [(''Aims'', 18, True, 1), (''Method'', 18, False, 2), (''Scope'', 14, False, 2)]"
    by (simp only: s)
  from t have "sorted_wrt page_then_size (fst (determine_heading_levels
         [(''Scope'', 14, False, 2), (''Aims'', 18, True, 1), (''Method'', 18, False, 2)]))"
    by blast
  with e show ?thesis
    by (simp only: simp_thms)
qed

subsection \<open>First occurrences\<close>

lemma first_occurrences_subseq: "subseq (first_occurrences key xs) xs"
proof (induction key xs rule: first_occurrences.induct)
  case (1 key)
  then show ?case by simp
next
  case (2 key x xs)
  have "subseq (filter (\<lambda>y. key y \<noteq> key x) xs) xs"
    by simp
  with 2 have "subseq (first_occurrences key (filter (\<lambda>y. key y \<noteq> key x) xs)) xs"
    using subseq_order.order_trans by blast
  then show ?case by simp
qed

lemma first_occurrences_set: "set (first_occurrences key xs) \<subseteq> set xs"
  by (induction key xs rule: first_occurrences.induct) auto

lemma first_occurrences_keys: "key ` set (first_occurrences key xs) = key ` set xs"
proof (induction key xs rule: first_occurrences.induct)
  case (1 key)
  then show ?case by simp
next
  case (2 key x xs)
  then show ?case by auto
qed

lemma first_occurrences_distinct: "distinct (map key (first_occurrences key xs))"
proof (induction key xs rule: first_occurrences.induct)
  case (1 key)
  then show ?case by simp
next
  case (2 key x xs)
  have "key x \<notin> key ` set (filter (\<lambda>y. key y \<noteq> key x) xs)"
    by auto
  then have "key x \<notin> key ` set (first_occurrences key (filter (\<lambda>y. key y \<noteq> key x) xs))"
    by (simp add: first_occurrences_keys)
  with 2 show ?case by simp
qed

lemma first_occurrences_find:
  "t \<in> set (first_occurrences key xs) \<longleftrightarrow> find (\<lambda>u. key u = key t) xs = Some t"
proof (induction key xs rule: first_occurrences.induct)
  case (1 key)
  then show ?case by simp
next
  case (2 key x xs)
  have f: "find (\<lambda>u. key u = key t) (filter (\<lambda>y. key y \<noteq> key x) xs) = find (\<lambda>u. key u = key t) xs"
    if "key t \<noteq> key x"
    using that by (induction xs) auto
  show ?case
  proof (cases "key x = key t")
    case True
    have "t \<notin> set (first_occurrences key (filter (\<lambda>y. key y \<noteq> key x) xs))"
      using first_occurrences_set [of key "filter (\<lambda>y. key y \<noteq> key x) xs"] True by auto
    with True show ?thesis by auto
  next
    case False
    with 2 f show ?thesis by auto
  qed
qed

subsection \<open>The level of a size\<close>

lemma length_filter_card: "distinct ds \<Longrightarrow> length (filter P ds) = card {x \<in> set ds. P x}"
  by (metis distinct_card distinct_filter set_filter)

lemma rank_of_card: "rank_of fi s = card {x \<in> ft_size ` set fi. s < x}"
  by (simp add: rank_of_def length_filter_card)

lemma font_sizes_of_set: "set (font_sizes_of fi) = ft_size ` set fi"
  by (simp add: font_sizes_of_def sort_reverse_def)

lemma font_sizes_of_distinct: "distinct (font_sizes_of fi)"
  by (simp add: font_sizes_of_def sort_reverse_def)

lemma font_sizes_of_descending: "sorted_wrt (\<lambda>x y. y < x) (font_sizes_of fi)"
proof -
  have "sorted (sort_key (\<lambda>x. x) (rev (remdups (map ft_size fi))))"
    using sorted_sort_key [of "\<lambda>x. x"] by simp
  moreover have "distinct (sort_key (\<lambda>x. x) (rev (remdups (map ft_size fi))))"
    by simp
  ultimately have "sorted_wrt (<) (sort_key (\<lambda>x. x) (rev (remdups (map ft_size fi))))"
    using strict_sorted_iff by blast
  then show ?thesis
    by (simp add: font_sizes_of_def sort_reverse_def sorted_wrt_rev)
qed

lemma rank_of_font_sizes:
  "rank_of fi s = length (filter (\<lambda>x. s < x) (font_sizes_of fi))"
  by (simp add: rank_of_card length_filter_card font_sizes_of_distinct font_sizes_of_set)

lemma level_assign_descending:
  assumes "sorted_wrt (\<lambda>x y. y < x) ds"
  shows "level_assign_loop (enumerate 0 (take (length heading_levels) ds)) Map.empty s
         = (if s \<in> set ds \<and> length (filter (\<lambda>x. s < x) ds) < 3
            then Some (heading_levels ! length (filter (\<lambda>x. s < x) ds)) else None)"
proof (cases ds)
  case Nil
  then show ?thesis by simp
next
  case (Cons a ds1)
  note d0 = this
  show ?thesis
  proof (cases ds1)
    case Nil
    with d0 show ?thesis by (simp add: heading_levels_def)
  next
    case (Cons b ds2)
    note d1 = this
    show ?thesis
    proof (cases ds2)
      case Nil
      with d0 d1 assms show ?thesis by (auto simp: heading_levels_def)
    next
      case (Cons c ds3)
      with d0 d1 assms have ord: "b < a" "c < b" "\<forall>x \<in> set ds3. x < c"
        by auto
      then have rest: "\<forall>x \<in> set ds3. x < a \<and> x < b \<and> filter (\<lambda>y. x < y) [a, b, c] = [a, b, c]"
        by auto
      have none: "filter (\<lambda>x. a < x) ds3 = []" "filter (\<lambda>x. b < x) ds3 = []"
        "filter (\<lambda>x. c < x) ds3 = []"
        using ord by (auto simp: filter_empty_conv)
      have "s = a \<or> s = b \<or> s = c \<or> (s \<in> set ds3) \<or> s \<notin> set ds"
        using d0 d1 Cons by auto
      then show ?thesis
        using ord rest d0 d1 Cons none
        by (elim disjE) (auto simp: heading_levels_def)
    qed
  qed
qed

lemma size_to_level_of_eq: "size_to_level_of fi s = level_of fi s"
  unfolding size_to_level_of_def level_of_def
  by (simp add: level_assign_descending [OF font_sizes_of_descending]
      rank_of_font_sizes font_sizes_of_set)

lemma size_to_level_of_sorted:
  "size_to_level_of (sort_reverse key fi) = size_to_level_of fi"
proof
  fix s
  have "ft_size ` set (sort_reverse key fi) = ft_size ` set fi"
    by (simp add: sort_reverse_def)
  then show "size_to_level_of (sort_reverse key fi) s = size_to_level_of fi s"
    by (simp add: size_to_level_of_eq level_of_def rank_of_card)
qed

subsection \<open>The listing of the set of sizes\<close>

text \<open>
  Whatever order the set of sizes is listed in, sorting it gives \<open>font_sizes_of\<close>.
\<close>

lemma sort_distinct_listing:
  fixes ys :: "real list"
  assumes "distinct ys"
  shows "sort_key (\<lambda>x. x) (rev ys) = sorted_list_of_set (set ys)"
  by (metis assms set_rev sorted_list_of_set_sort_remdups distinct_rev remdups_id_iff_distinct)

lemma font_sizes_of_any_listing:
  assumes "distinct ys" and "set ys = ft_size ` set fi"
  shows "sort_reverse (\<lambda>x. x) ys = font_sizes_of fi"
proof -
  have "sort_key (\<lambda>x. x) (rev ys) = sorted_list_of_set (ft_size ` set fi)"
    using assms sort_distinct_listing [of ys] by simp
  moreover have "sort_key (\<lambda>x. x) (rev (remdups (map ft_size fi)))
      = sorted_list_of_set (ft_size ` set fi)"
    using sort_distinct_listing [of "remdups (map ft_size fi)"] by simp
  ultimately show ?thesis
    by (simp add: font_sizes_of_def sort_reverse_def)
qed

subsection \<open>The heading loop\<close>

lemma heading_loop_first_occurrences:
  "heading_loop m xs seen acc
   = acc @ map (\<lambda>t. \<lparr>level = the (m (ft_size t)), heading_text = strip (ft_text t),
                      page_no = ft_page t\<rparr>)
       (first_occurrences (\<lambda>t. text_key (ft_text t))
          (filter (\<lambda>t. text_key (ft_text t) \<notin> seen) (filter (\<lambda>t. m (ft_size t) \<noteq> None) xs)))"
proof -
  define key where "key = (\<lambda>t::font_tuple. text_key (ft_text t))"
  define has_level where "has_level = (\<lambda>t::font_tuple. m (ft_size t) \<noteq> None)"
  define mk where "mk = (\<lambda>t::font_tuple. \<lparr>level = the (m (ft_size t)),
      heading_text = strip (ft_text t), page_no = ft_page t\<rparr>)"
  have "heading_loop m xs seen acc
        = acc @ map mk (first_occurrences key (filter (\<lambda>t. key t \<notin> seen) (filter has_level xs)))"
    for seen acc
  proof (induction xs arbitrary: seen acc)
    case Nil
    then show ?case by simp
  next
    case (Cons x xs)
    obtain tx font_size is_bold page_num where x: "x = (tx, font_size, is_bold, page_num)"
      by (cases x)
    have kx: "key x = lower (strip tx)"
      and hx: "has_level x = (m font_size \<noteq> None)"
      and mx: "mk x = \<lparr>level = the (m font_size), heading_text = strip tx, page_no = page_num\<rparr>"
      by (simp_all add: x key_def has_level_def mk_def text_key_def ft_text_def ft_size_def
          ft_page_def)
    show ?case
    proof (cases "m font_size")
      case None
      then have "heading_loop m (x # xs) seen acc = heading_loop m xs seen acc"
        by (simp add: x)
      moreover from None hx have "filter has_level (x # xs) = filter has_level xs"
        by simp
      ultimately show ?thesis
        by (simp only: Cons.IH)
    next
      case (Some lv)
      with hx have fx: "filter has_level (x # xs) = x # filter has_level xs"
        by simp
      show ?thesis
      proof (cases "lower (strip tx) \<in> seen")
        case True
        with Some have "heading_loop m (x # xs) seen acc = heading_loop m xs seen acc"
          by (simp add: x)
        moreover from True kx
        have "filter (\<lambda>t. key t \<notin> seen) (x # filter has_level xs)
              = filter (\<lambda>t. key t \<notin> seen) (filter has_level xs)"
          by simp
        ultimately show ?thesis
          by (simp only: Cons.IH fx)
      next
        case False
        with Some have step: "heading_loop m (x # xs) seen acc
            = heading_loop m xs (insert (key x) seen) (acc @ [mk x])"
          by (simp add: x kx [unfolded x] mx [unfolded x] Let_def)
        from False kx
        have keep: "filter (\<lambda>t. key t \<notin> seen) (x # filter has_level xs)
              = x # filter (\<lambda>t. key t \<notin> seen) (filter has_level xs)"
          by simp
        have fl: "filter (\<lambda>y. key y \<noteq> key x) (filter (\<lambda>t. key t \<notin> seen) zs)
                  = filter (\<lambda>t. key t \<notin> insert (key x) seen) zs" for zs
          by (induction zs) auto
        show ?thesis
          by (simp only: step Cons.IH fx keep first_occurrences.simps fl) simp
      qed
    qed
  qed
  then show ?thesis
    unfolding key_def has_level_def mk_def .
qed

subsection \<open>The leveler refines its contract\<close>

lemma m_eq: "size_to_level_of (sort_reverse (\<lambda>x. (ft_page x, ft_size x)) fi) = level_of fi"
  by (rule ext) (simp only: size_to_level_of_sorted size_to_level_of_eq)

lemma po_eq: "sort_key (\<lambda>x. (ft_page x, - ft_size x)) (sort_reverse (\<lambda>x. (ft_page x, ft_size x)) fi)
   = processing_order fi"
  by (simp only: two_sorts processing_order_def)

lemma set_po: "set (processing_order fi) = set fi"
  by (simp add: processing_order_def)

lemma cand_eq: "filter (\<lambda>t. level_of fi (ft_size t) \<noteq> None) (processing_order fi) = candidates fi"
  unfolding candidates_def
  by (rule filter_cong) (auto simp: set_po level_of_def)

lemma snd_determine:
  "fi \<noteq> [] \<Longrightarrow> snd (determine_heading_levels fi) = heading_loop (level_of fi) (processing_order fi) {} []"
  unfolding determine_heading_levels_def Let_def m_eq po_eq by simp

lemma emitted_candidates: "t \<in> set (emitted fi) \<Longrightarrow> t \<in> set fi \<and> rank_of fi (ft_size t) < 3"
proof -
  assume "t \<in> set (emitted fi)"
  then have "t \<in> set (candidates fi)"
    using first_occurrences_set [of "\<lambda>t. text_key (ft_text t)" "candidates fi"]
    unfolding emitted_def by (rule set_mp [rotated])
  then show ?thesis
    by (simp add: candidates_def set_po)
qed

lemma heading_loop_emitted:
  "heading_loop (level_of fi) (processing_order fi) {} []
   = map (\<lambda>t. \<lparr>level = the (level_of fi (ft_size t)), heading_text = strip (ft_text t),
                      page_no = ft_page t\<rparr>) (emitted fi)"
proof -
  have e: "filter (\<lambda>t. text_key (ft_text t) \<notin> {}) zs = zs" for zs :: "font_tuple list"
    by simp
  have "heading_loop (level_of fi) (processing_order fi) {} []
     = [] @ map (\<lambda>t. \<lparr>level = the (level_of fi (ft_size t)), heading_text = strip (ft_text t),
                      page_no = ft_page t\<rparr>)
       (first_occurrences (\<lambda>t. text_key (ft_text t))
          (filter (\<lambda>t. text_key (ft_text t) \<notin> {})
             (filter (\<lambda>t. level_of fi (ft_size t) \<noteq> None) (processing_order fi))))"
    by (rule heading_loop_first_occurrences)
  also have "\<dots> = map (\<lambda>t. \<lparr>level = the (level_of fi (ft_size t)), heading_text = strip (ft_text t),
                      page_no = ft_page t\<rparr>)
       (first_occurrences (\<lambda>t. text_key (ft_text t)) (candidates fi))"
    unfolding cand_eq e by (rule append_Nil)
  finally show ?thesis
    unfolding emitted_def .
qed

lemma heading_for_level_of:
  "t \<in> set (emitted fi) \<Longrightarrow>
   \<lparr>level = the (level_of fi (ft_size t)), heading_text = strip (ft_text t),
     page_no = ft_page t\<rparr> = heading_for fi t"
proof -
  assume "t \<in> set (emitted fi)"
  then have "t \<in> set fi \<and> rank_of fi (ft_size t) < 3"
    by (rule emitted_candidates)
  then have "level_of fi (ft_size t) = Some (heading_levels ! rank_of fi (ft_size t))"
    by (simp add: level_of_def)
  then show ?thesis
    by (simp add: heading_for_def)
qed

lemma leveler_refines: "snd (determine_heading_levels fi) = map (heading_for fi) (emitted fi)"
proof (cases "fi = []")
  case True
  have "emitted [] = []"
    by (simp add: emitted_def candidates_def processing_order_def)
  moreover have "snd (determine_heading_levels []) = []"
    by (simp add: determine_heading_levels_def)
  ultimately show ?thesis
    unfolding True by simp
next
  case False
  then have "snd (determine_heading_levels fi)
      = heading_loop (level_of fi) (processing_order fi) {} []"
    by (rule snd_determine)
  also have "\<dots> = map (\<lambda>t. \<lparr>level = the (level_of fi (ft_size t)), heading_text = strip (ft_text t),
                      page_no = ft_page t\<rparr>) (emitted fi)"
    by (rule heading_loop_emitted)
  also have "\<dots> = map (heading_for fi) (emitted fi)"
    by (rule map_cong [OF refl]) (rule heading_for_level_of)
  finally show ?thesis .
qed

subsection \<open>Ranks and seniority\<close>

lemma rank_of_mono: "s2 \<le> s1 \<Longrightarrow> rank_of fi s1 \<le> rank_of fi s2"
  unfolding rank_of_card by (rule card_mono) auto

lemma rank_of_strict:
  assumes "s2 < s1" and "s1 \<in> ft_size ` set fi"
  shows "rank_of fi s1 < rank_of fi s2"
  unfolding rank_of_card
proof (rule psubset_card_mono)
  show "finite {x \<in> ft_size ` set fi. s2 < x}" by simp
  from assms show "{x \<in> ft_size ` set fi. s1 < x} \<subset> {x \<in> ft_size ` set fi. s2 < x}"
    by auto
qed

lemma rank_of_inj:
  assumes "s1 \<in> ft_size ` set fi" and "s2 \<in> ft_size ` set fi"
    and "rank_of fi s1 = rank_of fi s2"
  shows "s1 = s2"
  using assms rank_of_strict [of s1 s2 fi] rank_of_strict [of s2 s1 fi]
  by (cases s1 s2 rule: linorder_cases) auto

lemma rank_of_less_card:
  assumes "s \<in> ft_size ` set fi"
  shows "rank_of fi s < card (ft_size ` set fi)"
  unfolding rank_of_card
proof (rule psubset_card_mono)
  show "finite (ft_size ` set fi)" by simp
  from assms show "{x \<in> ft_size ` set fi. s < x} \<subset> ft_size ` set fi"
    by auto
qed

lemma seniority_nth: "r < 3 \<Longrightarrow> seniority (heading_levels ! r) = r"
proof -
  assume "r < 3"
  then have "r = 0 \<or> r = 1 \<or> r = 2" by arith
  then show ?thesis
    by (elim disjE) (simp_all add: seniority_def heading_levels_def)
qed

lemma heading_levels_nth_eq:
  "r1 < 3 \<Longrightarrow> r2 < 3 \<Longrightarrow> (heading_levels ! r1 = heading_levels ! r2) = (r1 = r2)"
  by (rule nth_eq_iff_index_eq) (simp_all add: heading_levels_def)

subsection \<open>The emitted tuples\<close>

lemma first_occurrences_sorted_wrt:
  "sorted_wrt R xs \<Longrightarrow> sorted_wrt R (first_occurrences key xs)"
proof (induction key xs rule: first_occurrences.induct)
  case (1 key)
  then show ?case by simp
next
  case (2 key x xs)
  from "2.prems" have hd: "\<forall>y \<in> set xs. R x y" and tl: "sorted_wrt R xs"
    by simp_all
  from tl have "sorted_wrt R (filter (\<lambda>y. key y \<noteq> key x) xs)"
    by (rule sorted_wrt_filter)
  then have "sorted_wrt R (first_occurrences key (filter (\<lambda>y. key y \<noteq> key x) xs))"
    by (rule "2.IH")
  moreover have "set (first_occurrences key (filter (\<lambda>y. key y \<noteq> key x) xs)) \<subseteq> set xs"
    using first_occurrences_set [of key "filter (\<lambda>y. key y \<noteq> key x) xs"] by auto
  ultimately show ?case
    using hd by auto
qed

lemma emitted_sorted: "sorted_wrt page_then_size (emitted fi)"
  unfolding emitted_def candidates_def
  by (intro first_occurrences_sorted_wrt sorted_wrt_filter sorted_processing_order)

lemma emitted_subseq: "subseq (emitted fi) (processing_order fi)"
proof -
  have "subseq (emitted fi) (candidates fi)"
    unfolding emitted_def by (rule first_occurrences_subseq)
  moreover have "subseq (candidates fi) (processing_order fi)"
    unfolding candidates_def by simp
  ultimately show ?thesis
    by (rule subseq_order.order_trans)
qed

lemma heading_for_key: "text_key (heading_text (heading_for fi t)) = text_key (ft_text t)"
  by (simp add: heading_for_def text_key_def strip_strip)

lemma heading_order_heading_for:
  assumes "t \<in> set (emitted fi)" and "u \<in> set (emitted fi)" and "page_then_size t u"
  shows "heading_order (heading_for fi t) (heading_for fi u)"
proof -
  from assms(1,2) have r: "rank_of fi (ft_size t) < 3" "rank_of fi (ft_size u) < 3"
    using emitted_candidates by blast+
  from assms(3) have "ft_page t < ft_page u
      \<or> (ft_page t = ft_page u \<and> rank_of fi (ft_size t) \<le> rank_of fi (ft_size u))"
    unfolding page_then_size_def using rank_of_mono [of "ft_size u" "ft_size t" fi] by auto
  with r show ?thesis
    by (simp add: heading_order_def heading_for_def seniority_nth)
qed

lemma headings_sorted: "sorted_wrt heading_order (snd (determine_heading_levels fi))"
  unfolding leveler_refines
  by (rule sorted_wrt_map_mono [OF emitted_sorted]) (rule heading_order_heading_for)

subsection \<open>Order of the headings\<close>

lemma scenario_outline:
  "snd (determine_heading_levels (scenario_candidates b1 b2 b3))
   = [\<lparr>level = ''H1'', heading_text = ''Chapter 1'', page_no = 1\<rparr>,
      \<lparr>level = ''H2'', heading_text = ''Section 1.1'', page_no = 2\<rparr>,
      \<lparr>level = ''H2'', heading_text = ''Section 1.2'', page_no = 2\<rparr>]"
  by code_simp

text \<open>
  C3. The headings come out by page ascending and, within a page, by font size
  descending: they are the headings of the emitted tuples, which are in that order, so
  that pages never decrease and within a page the levels never become more senior. The
  end-to-end scenario gives the outline of the specification.
\<close>

theorem headings_in_page_then_size_order:
  "snd (determine_heading_levels font_info) = map (heading_for font_info) (emitted font_info)
   \<and> sorted_wrt page_then_size (emitted font_info)
   \<and> sorted_wrt heading_order (snd (determine_heading_levels font_info))
   \<and> snd (determine_heading_levels (scenario_candidates b1 b2 b3))
       = [\<lparr>level = ''H1'', heading_text = ''Chapter 1'', page_no = 1\<rparr>,
          \<lparr>level = ''H2'', heading_text = ''Section 1.1'', page_no = 2\<rparr>,
          \<lparr>level = ''H2'', heading_text = ''Section 1.2'', page_no = 2\<rparr>]"
  using leveler_refines [of font_info] emitted_sorted [of font_info]
    headings_sorted [of font_info] scenario_outline [of b1 b2 b3]
  by (simp only: simp_thms)

theorem headings_in_page_then_size_order_witness:
  "emitted unordered_candidates
     = [(''Aims'', 18, True, 1), (''Method'', 18, False, 2), (''Scope'', 14, False, 2),
        (''Terms'', 16, False, 3)]
   \<and> snd (determine_heading_levels unordered_candidates)
     = [\<lparr>level = ''H1'', heading_text = ''Aims'', page_no = 1\<rparr>,
        \<lparr>level = ''H1'', heading_text = ''Method'', page_no = 2\<rparr>,
        \<lparr>level = ''H3'', heading_text = ''Scope'', page_no = 2\<rparr>,
        \<lparr>level = ''H2'', heading_text = ''Terms'', page_no = 3\<rparr>]
   \<and> sorted_wrt heading_order
        [\<lparr>level = ''H1'', heading_text = ''Aims'', page_no = 1\<rparr>,
         \<lparr>level = ''H1'', heading_text = ''Method'', page_no = 2\<rparr>,
         \<lparr>level = ''H3'', heading_text = ''Scope'', page_no = 2\<rparr>,
        \<lparr>level = ''H2'', heading_text = ''Terms'', page_no = 3\<rparr>]"
proof -
  have e: "emitted unordered_candidates
     = [(''Aims'', 18, True, 1), (''Method'', 18, False, 2), (''Scope'', 14, False, 2),
        (''Terms'', 16, False, 3)]"
    by code_simp
  have h: "map (heading_for unordered_candidates)
        [(''Aims'', 18, True, 1), (''Method'', 18, False, 2), (''Scope'', 14, False, 2),
        (''Terms'', 16, False, 3)]
     = [\<lparr>level = ''H1'', heading_text = ''Aims'', page_no = 1\<rparr>,
        \<lparr>level = ''H1'', heading_text = ''Method'', page_no = 2\<rparr>,
        \<lparr>level = ''H3'', heading_text = ''Scope'', page_no = 2\<rparr>,
        \<lparr>level = ''H2'', heading_text = ''Terms'', page_no = 3\<rparr>]"
    by code_simp
  note t = headings_in_page_then_size_order [of unordered_candidates True True True]
  from t have o: "snd (determine_heading_levels unordered_candidates)
     = [\<lparr>level = ''H1'', heading_text = ''Aims'', page_no = 1\<rparr>,
        \<lparr>level = ''H1'', heading_text = ''Method'', page_no = 2\<rparr>,
        \<lparr>level = ''H3'', heading_text = ''Scope'', page_no = 2\<rparr>,
        \<lparr>level = ''H2'', heading_text = ''Terms'', page_no = 3\<rparr>]"
    by (simp only: e h)
  from t have "sorted_wrt heading_order (snd (determine_heading_levels unordered_candidates))"
    by blast
  with e o show ?thesis
    by (simp only: simp_thms)
qed

subsection \<open>Deduplication\<close>

text \<open>
  C5. The lowercased trimmed texts of the headings are pairwise distinct. For each key,
  the first candidate with that key in processing order is the one emitted, and every
  heading is the heading of such a first candidate: a later candidate with the same key,
  whatever its page or level, leaves no heading.
\<close>

theorem headings_deduplicated:
  "distinct (map (\<lambda>h. text_key (heading_text h)) (snd (determine_heading_levels font_info)))
   \<and> (\<forall>t. find (\<lambda>u. text_key (ft_text u) = text_key (ft_text t)) (candidates font_info) = Some t
          \<longrightarrow> heading_for font_info t \<in> set (snd (determine_heading_levels font_info)))
   \<and> (\<forall>h \<in> set (snd (determine_heading_levels font_info)).
         \<exists>t. find (\<lambda>u. text_key (ft_text u) = text_key (heading_text h)) (candidates font_info)
               = Some t
             \<and> h = heading_for font_info t)"
proof (intro conjI allI impI ballI)
  have "map (\<lambda>h. text_key (heading_text h)) (map (heading_for font_info) (emitted font_info))
        = map (\<lambda>t. text_key (ft_text t)) (emitted font_info)"
    by (simp add: heading_for_key)
  then show "distinct (map (\<lambda>h. text_key (heading_text h))
      (snd (determine_heading_levels font_info)))"
    unfolding leveler_refines emitted_def
    by (simp only: first_occurrences_distinct)
next
  fix t
  assume "find (\<lambda>u. text_key (ft_text u) = text_key (ft_text t)) (candidates font_info) = Some t"
  then have "t \<in> set (emitted font_info)"
    unfolding emitted_def by (simp only: first_occurrences_find)
  then show "heading_for font_info t \<in> set (snd (determine_heading_levels font_info))"
    unfolding leveler_refines by simp
next
  fix h
  assume "h \<in> set (snd (determine_heading_levels font_info))"
  then obtain t where t: "t \<in> set (emitted font_info)" "h = heading_for font_info t"
    unfolding leveler_refines by auto
  from t(1) have "find (\<lambda>u. text_key (ft_text u) = text_key (ft_text t)) (candidates font_info)
      = Some t"
    unfolding emitted_def by (simp only: first_occurrences_find)
  with t(2) show "\<exists>t. find (\<lambda>u. text_key (ft_text u) = text_key (heading_text h))
        (candidates font_info) = Some t \<and> h = heading_for font_info t"
    by (auto simp: heading_for_key)
qed

theorem headings_deduplicated_witness:
  "find (\<lambda>u. text_key (ft_text u) = text_key (ft_text (''Intro'', 18, False, 1)))
       (candidates repeated_candidates) = Some (''Intro'', 18, False, 1)
   \<and> candidates repeated_candidates
       = [(''Intro'', 18, False, 1), ('' INTRO '', 14, True, 2), (''Scope'', 14, False, 2),
          (''intro'', 18, False, 3)]
   \<and> heading_for repeated_candidates (''Intro'', 18, False, 1)
       \<in> set (snd (determine_heading_levels repeated_candidates))
   \<and> snd (determine_heading_levels repeated_candidates)
       = [\<lparr>level = ''H1'', heading_text = ''Intro'', page_no = 1\<rparr>,
          \<lparr>level = ''H2'', heading_text = ''Scope'', page_no = 2\<rparr>]"
proof -
  have c: "candidates repeated_candidates
       = [(''Intro'', 18, False, 1), ('' INTRO '', 14, True, 2), (''Scope'', 14, False, 2),
          (''intro'', 18, False, 3)]"
    by code_simp
  have f: "find (\<lambda>u. text_key (ft_text u) = text_key (ft_text (''Intro'', 18, False, 1)))
       (candidates repeated_candidates) = Some (''Intro'', 18, False, 1)"
    by code_simp
  have o: "snd (determine_heading_levels repeated_candidates)
       = [\<lparr>level = ''H1'', heading_text = ''Intro'', page_no = 1\<rparr>,
          \<lparr>level = ''H2'', heading_text = ''Scope'', page_no = 2\<rparr>]"
    by code_simp
  from headings_deduplicated [of repeated_candidates] f
  have "heading_for repeated_candidates (''Intro'', 18, False, 1)
       \<in> set (snd (determine_heading_levels repeated_candidates))"
    by blast
  with c f o show ?thesis
    by (simp only: simp_thms)
qed

subsection \<open>Ties\<close>

lemma processing_order_stable:
  "filter (\<lambda>t. ft_page t = p \<and> ft_size t = s) (processing_order fi)
   = filter (\<lambda>t. ft_page t = p \<and> ft_size t = s) fi"
proof -
  have k: "(\<lambda>t. ft_page t = p \<and> ft_size t = s)
      = (\<lambda>t. (ft_page t, - ft_size t) = (p, - s))"
    by (rule ext) auto
  show ?thesis
    unfolding k processing_order_def by (rule sort_key_stable)
qed

lemma emitted_level_filter:
  assumes "s \<in> ft_size ` set fi" and "rank_of fi s < 3"
  shows "filter (\<lambda>h. page_no h = p \<and> level h = heading_levels ! rank_of fi s)
           (map (heading_for fi) (emitted fi))
         = map (heading_for fi) (filter (\<lambda>t. ft_page t = p \<and> ft_size t = s) (emitted fi))"
proof -
  have "filter ((\<lambda>h. page_no h = p \<and> level h = heading_levels ! rank_of fi s) \<circ> heading_for fi)
          (emitted fi)
        = filter (\<lambda>t. ft_page t = p \<and> ft_size t = s) (emitted fi)"
  proof (rule filter_cong [OF refl])
    fix t assume "t \<in> set (emitted fi)"
    then have t: "t \<in> set fi" "rank_of fi (ft_size t) < 3"
      using emitted_candidates by blast+
    then have "(heading_levels ! rank_of fi (ft_size t) = heading_levels ! rank_of fi s)
        = (rank_of fi (ft_size t) = rank_of fi s)"
      using assms(2) by (simp add: heading_levels_nth_eq)
    also have "\<dots> = (ft_size t = s)"
      using rank_of_inj [of "ft_size t" fi s] t(1) assms(1) by auto
    finally show "((\<lambda>h. page_no h = p \<and> level h = heading_levels ! rank_of fi s) \<circ> heading_for fi) t
        = (ft_page t = p \<and> ft_size t = s)"
      by (simp add: heading_for_def)
  qed
  then show ?thesis
    by (simp only: filter_map)
qed

lemma ties_subseq:
  "subseq (filter (\<lambda>t. ft_page t = p \<and> ft_size t = s) (emitted fi))
          (filter (\<lambda>t. ft_page t = p \<and> ft_size t = s) fi)"
proof -
  have "subseq (filter (\<lambda>t. ft_page t = p \<and> ft_size t = s) (emitted fi))
          (filter (\<lambda>t. ft_page t = p \<and> ft_size t = s) (processing_order fi))"
    using emitted_subseq by (rule subseq_filter)
  then show ?thesis
    by (simp only: processing_order_stable)
qed

text \<open>
  C10. Candidates that tie on page and font size keep the order of the input: among the
  tuples of one page and one size the list left by the two sorts is the input, and the
  headings of that page and of the level of that size, in the order of the outline, are a
  subsequence of the headings of those input tuples in input order.
\<close>

theorem ties_keep_input_order:
  "filter (\<lambda>t. ft_page t = p \<and> ft_size t = s) (fst (determine_heading_levels font_info))
     = filter (\<lambda>t. ft_page t = p \<and> ft_size t = s) font_info
   \<and> subseq (filter (\<lambda>t. ft_page t = p \<and> ft_size t = s) (emitted font_info))
        (filter (\<lambda>t. ft_page t = p \<and> ft_size t = s) font_info)
   \<and> (s \<in> ft_size ` set font_info \<and> rank_of font_info s < 3 \<longrightarrow>
        subseq
          (filter (\<lambda>h. page_no h = p \<and> level h = heading_levels ! rank_of font_info s)
             (snd (determine_heading_levels font_info)))
          (map (heading_for font_info)
             (filter (\<lambda>t. ft_page t = p \<and> ft_size t = s) font_info)))"
proof (intro conjI impI)
  show "filter (\<lambda>t. ft_page t = p \<and> ft_size t = s) (fst (determine_heading_levels font_info))
     = filter (\<lambda>t. ft_page t = p \<and> ft_size t = s) font_info"
    by (simp only: fst_determine processing_order_stable)
next
  show "subseq (filter (\<lambda>t. ft_page t = p \<and> ft_size t = s) (emitted font_info))
        (filter (\<lambda>t. ft_page t = p \<and> ft_size t = s) font_info)"
    by (rule ties_subseq)
next
  assume a: "s \<in> ft_size ` set font_info \<and> rank_of font_info s < 3"
  then have "filter (\<lambda>h. page_no h = p \<and> level h = heading_levels ! rank_of font_info s)
             (snd (determine_heading_levels font_info))
      = map (heading_for font_info)
          (filter (\<lambda>t. ft_page t = p \<and> ft_size t = s) (emitted font_info))"
    unfolding leveler_refines by (intro emitted_level_filter) simp_all
  moreover have "subseq
      (map (heading_for font_info)
          (filter (\<lambda>t. ft_page t = p \<and> ft_size t = s) (emitted font_info)))
      (map (heading_for font_info)
          (filter (\<lambda>t. ft_page t = p \<and> ft_size t = s) font_info))"
    using ties_subseq by (rule subseq_map)
  ultimately show "subseq
          (filter (\<lambda>h. page_no h = p \<and> level h = heading_levels ! rank_of font_info s)
             (snd (determine_heading_levels font_info)))
          (map (heading_for font_info)
             (filter (\<lambda>t. ft_page t = p \<and> ft_size t = s) font_info))"
    by simp
qed

theorem ties_keep_input_order_witness:
  "14 \<in> ft_size ` set tied_candidates
   \<and> rank_of tied_candidates 14 = 1
   \<and> filter (\<lambda>t. ft_page t = 2 \<and> ft_size t = 14) tied_candidates
       = [(''Zeta'', 14, False, 2), (''Alpha'', 14, True, 2), (''Mid'', 14, False, 2)]
   \<and> filter (\<lambda>t. ft_page t = 2 \<and> ft_size t = 14) (fst (determine_heading_levels tied_candidates))
       = [(''Zeta'', 14, False, 2), (''Alpha'', 14, True, 2), (''Mid'', 14, False, 2)]
   \<and> snd (determine_heading_levels tied_candidates)
       = [\<lparr>level = ''H1'', heading_text = ''Top'', page_no = 1\<rparr>,
          \<lparr>level = ''H2'', heading_text = ''Zeta'', page_no = 2\<rparr>,
          \<lparr>level = ''H2'', heading_text = ''Alpha'', page_no = 2\<rparr>,
          \<lparr>level = ''H2'', heading_text = ''Mid'', page_no = 2\<rparr>]
   \<and> subseq
        (filter (\<lambda>h. page_no h = 2 \<and> level h = heading_levels ! rank_of tied_candidates 14)
           (snd (determine_heading_levels tied_candidates)))
        (map (heading_for tied_candidates)
           (filter (\<lambda>t. ft_page t = 2 \<and> ft_size t = 14) tied_candidates))"
proof -
  have m: "14 \<in> ft_size ` set tied_candidates"
    by (simp add: tied_candidates_def ft_size_def)
  have r: "rank_of tied_candidates 14 = 1"
    by code_simp
  have f: "filter (\<lambda>t. ft_page t = 2 \<and> ft_size t = 14) tied_candidates
       = [(''Zeta'', 14, False, 2), (''Alpha'', 14, True, 2), (''Mid'', 14, False, 2)]"
    by code_simp
  have o: "snd (determine_heading_levels tied_candidates)
       = [\<lparr>level = ''H1'', heading_text = ''Top'', page_no = 1\<rparr>,
          \<lparr>level = ''H2'', heading_text = ''Zeta'', page_no = 2\<rparr>,
          \<lparr>level = ''H2'', heading_text = ''Alpha'', page_no = 2\<rparr>,
          \<lparr>level = ''H2'', heading_text = ''Mid'', page_no = 2\<rparr>]"
    by code_simp
  note t = ties_keep_input_order [of 2 14 tied_candidates]
  from t f have g: "filter (\<lambda>t. ft_page t = 2 \<and> ft_size t = 14)
        (fst (determine_heading_levels tied_candidates))
       = [(''Zeta'', 14, False, 2), (''Alpha'', 14, True, 2), (''Mid'', 14, False, 2)]"
    by (simp only:)
  from m r have "14 \<in> ft_size ` set tied_candidates \<and> rank_of tied_candidates 14 < 3"
    by simp
  with t have "subseq
        (filter (\<lambda>h. page_no h = 2 \<and> level h = heading_levels ! rank_of tied_candidates 14)
           (snd (determine_heading_levels tied_candidates)))
        (map (heading_for tied_candidates)
           (filter (\<lambda>t. ft_page t = 2 \<and> ft_size t = 14) tied_candidates))"
    by blast
  with m r f g o show ?thesis
    by (simp only: simp_thms)
qed

subsection \<open>Sizes without a level\<close>

lemma rank_of_levelled:
  assumes "rank_of fi s < 3"
  shows "rank_of (filter (\<lambda>t. rank_of fi (ft_size t) < 3) fi) s = rank_of fi s"
proof -
  have "{x \<in> ft_size ` set (filter (\<lambda>t. rank_of fi (ft_size t) < 3) fi). s < x}
        = {x \<in> ft_size ` set fi. s < x}"
  proof (intro equalityI subsetI)
    fix x assume "x \<in> {x \<in> ft_size ` set (filter (\<lambda>t. rank_of fi (ft_size t) < 3) fi). s < x}"
    then show "x \<in> {x \<in> ft_size ` set fi. s < x}" by auto
  next
    fix x assume "x \<in> {x \<in> ft_size ` set fi. s < x}"
    then obtain t where t: "t \<in> set fi" "ft_size t = x" "s < x" by auto
    then have "rank_of fi x \<le> rank_of fi s"
      by (intro rank_of_mono) simp
    with assms t show "x \<in> {x \<in> ft_size ` set (filter (\<lambda>t. rank_of fi (ft_size t) < 3) fi). s < x}"
      by auto
  qed
  then show ?thesis
    by (simp only: rank_of_card)
qed

lemma candidates_levelled:
  "candidates (filter (\<lambda>t. rank_of fi (ft_size t) < 3) fi) = candidates fi"
proof -
  let ?P = "\<lambda>t. rank_of fi (ft_size t) < 3"
  have po: "processing_order (filter ?P fi) = filter ?P (processing_order fi)"
    unfolding processing_order_def by (rule filter_sort [symmetric])
  have "filter (\<lambda>t. rank_of (filter ?P fi) (ft_size t) < 3) (filter ?P (processing_order fi))
        = filter ?P (processing_order fi)"
  proof (rule filter_True)
    show "\<forall>t \<in> set (filter ?P (processing_order fi)). rank_of (filter ?P fi) (ft_size t) < 3"
      by (auto simp: rank_of_levelled)
  qed
  then show ?thesis
    unfolding candidates_def po .
qed

lemma emitted_levelled:
  "emitted (filter (\<lambda>t. rank_of fi (ft_size t) < 3) fi) = emitted fi"
  unfolding emitted_def candidates_levelled ..

lemma dropped_sizes_leave_no_heading:
  "snd (determine_heading_levels (filter (\<lambda>t. rank_of fi (ft_size t) < 3) fi))
   = snd (determine_heading_levels fi)"
proof -
  have "map (heading_for (filter (\<lambda>t. rank_of fi (ft_size t) < 3) fi)) (emitted fi)
        = map (heading_for fi) (emitted fi)"
  proof (rule map_cong [OF refl])
    fix t assume "t \<in> set (emitted fi)"
    then have "rank_of fi (ft_size t) < 3"
      using emitted_candidates by blast
    then show "heading_for (filter (\<lambda>t. rank_of fi (ft_size t) < 3) fi) t = heading_for fi t"
      by (simp add: heading_for_def rank_of_levelled)
  qed
  then show ?thesis
    by (simp only: leveler_refines emitted_levelled)
qed

lemma heading_levels_prefix:
  assumes "h \<in> set (snd (determine_heading_levels fi))"
  shows "level h \<in> set (take (card (ft_size ` set fi)) heading_levels)"
proof -
  from assms obtain t where t: "t \<in> set (emitted fi)" "h = heading_for fi t"
    unfolding leveler_refines by auto
  then have c: "t \<in> set fi" "rank_of fi (ft_size t) < 3"
    using emitted_candidates by blast+
  then have "rank_of fi (ft_size t) < card (ft_size ` set fi)"
    by (intro rank_of_less_card) simp
  with c(2) have "rank_of fi (ft_size t) < length (take (card (ft_size ` set fi)) heading_levels)"
    by (simp add: heading_levels_def)
  then have "take (card (ft_size ` set fi)) heading_levels ! rank_of fi (ft_size t)
      \<in> set (take (card (ft_size ` set fi)) heading_levels)"
    by (rule nth_mem)
  moreover have "take (card (ft_size ` set fi)) heading_levels ! rank_of fi (ft_size t)
      = heading_levels ! rank_of fi (ft_size t)"
    using \<open>rank_of fi (ft_size t) < card (ft_size ` set fi)\<close> by simp
  ultimately show ?thesis
    using t(2) by (simp add: heading_for_def)
qed

lemma at_most_three_levels: "card (level ` set (snd (determine_heading_levels fi))) \<le> 3"
proof -
  have "level ` set (snd (determine_heading_levels fi)) \<subseteq> set heading_levels"
    using heading_levels_prefix [of _ fi] by (auto dest: in_set_takeD)
  then have "card (level ` set (snd (determine_heading_levels fi))) \<le> card (set heading_levels)"
    by (intro card_mono) simp_all
  also have "\<dots> \<le> 3"
    by (simp add: heading_levels_def)
  finally show ?thesis .
qed

lemma level_map_rank:
  "size_to_level_of (sort_reverse (\<lambda>x. (ft_page x, ft_size x)) fi) s
   = (if s \<in> ft_size ` set fi \<and> rank_of fi s < 3
      then Some (heading_levels ! rank_of fi s) else None)"
  by (simp add: m_eq level_of_def)

lemma level_map_seniority:
  assumes "s2 < s1"
    and "size_to_level_of (sort_reverse (\<lambda>x. (ft_page x, ft_size x)) fi) s1 = Some l1"
    and "size_to_level_of (sort_reverse (\<lambda>x. (ft_page x, ft_size x)) fi) s2 = Some l2"
  shows "seniority l1 < seniority l2"
proof -
  from assms(2) have 1: "s1 \<in> ft_size ` set fi" "rank_of fi s1 < 3"
      "l1 = heading_levels ! rank_of fi s1"
    by (auto simp: level_map_rank split: if_splits)
  from assms(3) have 2: "rank_of fi s2 < 3" "l2 = heading_levels ! rank_of fi s2"
    by (auto simp: level_map_rank split: if_splits)
  from assms(1) 1(1) have "rank_of fi s1 < rank_of fi s2"
    by (rule rank_of_strict)
  with 1 2 show ?thesis
    by (simp add: seniority_nth)
qed

text \<open>
  C4. The dictionary from sizes to levels that \<open>determine_heading_levels\<close> builds goes by
  the rank of a size among the distinct sizes of the whole input: rank 0 (the largest) has
  \<open>H1\<close>, rank 1 has \<open>H2\<close>, rank 2 has \<open>H3\<close>, and a size of rank 3 or more, like a size
  that does not occur, has no level. Every heading comes from a tuple of rank below 3 and
  carries the level of its size, and the outline is the one obtained with the tuples of
  the other sizes removed from the input. Of two sizes with a level the larger has the
  more senior level; at most three levels occur, all among the first as many levels as
  there are distinct sizes; the empty input gives the empty outline.
\<close>

theorem levels_by_global_size_rank:
  "determine_heading_levels [] = ([], [])
   \<and> (s \<in> ft_size ` set font_info \<and> rank_of font_info s = 0 \<longrightarrow>
        size_to_level_of (sort_reverse (\<lambda>x. (ft_page x, ft_size x)) font_info) s = Some ''H1'')
   \<and> (s \<in> ft_size ` set font_info \<and> rank_of font_info s = 1 \<longrightarrow>
        size_to_level_of (sort_reverse (\<lambda>x. (ft_page x, ft_size x)) font_info) s = Some ''H2'')
   \<and> (s \<in> ft_size ` set font_info \<and> rank_of font_info s = 2 \<longrightarrow>
        size_to_level_of (sort_reverse (\<lambda>x. (ft_page x, ft_size x)) font_info) s = Some ''H3'')
   \<and> (3 \<le> rank_of font_info s \<longrightarrow>
        size_to_level_of (sort_reverse (\<lambda>x. (ft_page x, ft_size x)) font_info) s = None)
   \<and> (s \<notin> ft_size ` set font_info \<longrightarrow>
        size_to_level_of (sort_reverse (\<lambda>x. (ft_page x, ft_size x)) font_info) s = None)
   \<and> (\<forall>h \<in> set (snd (determine_heading_levels font_info)).
        \<exists>t \<in> set font_info.
          rank_of font_info (ft_size t) < 3 \<and> h = heading_for font_info t
          \<and> size_to_level_of (sort_reverse (\<lambda>x. (ft_page x, ft_size x)) font_info) (ft_size t)
              = Some (level h))
   \<and> snd (determine_heading_levels (filter (\<lambda>t. rank_of font_info (ft_size t) < 3) font_info))
       = snd (determine_heading_levels font_info)
   \<and> (\<forall>s1 s2 l1 l2.
        s2 < s1
        \<and> size_to_level_of (sort_reverse (\<lambda>x. (ft_page x, ft_size x)) font_info) s1 = Some l1
        \<and> size_to_level_of (sort_reverse (\<lambda>x. (ft_page x, ft_size x)) font_info) s2 = Some l2
        \<longrightarrow> seniority l1 < seniority l2)
   \<and> card (level ` set (snd (determine_heading_levels font_info))) \<le> 3
   \<and> level ` set (snd (determine_heading_levels font_info))
       \<subseteq> set (take (card (ft_size ` set font_info)) heading_levels)"
proof (intro conjI)
  show "determine_heading_levels [] = ([], [])"
    by (simp add: determine_heading_levels_def)
next
  show "s \<in> ft_size ` set font_info \<and> rank_of font_info s = 0 \<longrightarrow>
        size_to_level_of (sort_reverse (\<lambda>x. (ft_page x, ft_size x)) font_info) s = Some ''H1''"
    by (simp add: level_map_rank heading_levels_def)
next
  show "s \<in> ft_size ` set font_info \<and> rank_of font_info s = 1 \<longrightarrow>
        size_to_level_of (sort_reverse (\<lambda>x. (ft_page x, ft_size x)) font_info) s = Some ''H2''"
    by (simp add: level_map_rank heading_levels_def)
next
  show "s \<in> ft_size ` set font_info \<and> rank_of font_info s = 2 \<longrightarrow>
        size_to_level_of (sort_reverse (\<lambda>x. (ft_page x, ft_size x)) font_info) s = Some ''H3''"
    by (simp add: level_map_rank heading_levels_def)
next
  show "3 \<le> rank_of font_info s \<longrightarrow>
        size_to_level_of (sort_reverse (\<lambda>x. (ft_page x, ft_size x)) font_info) s = None"
    by (simp add: level_map_rank)
next
  show "s \<notin> ft_size ` set font_info \<longrightarrow>
        size_to_level_of (sort_reverse (\<lambda>x. (ft_page x, ft_size x)) font_info) s = None"
    by (simp add: level_map_rank)
next
  show "\<forall>h \<in> set (snd (determine_heading_levels font_info)).
        \<exists>t \<in> set font_info.
          rank_of font_info (ft_size t) < 3 \<and> h = heading_for font_info t
          \<and> size_to_level_of (sort_reverse (\<lambda>x. (ft_page x, ft_size x)) font_info) (ft_size t)
              = Some (level h)"
  proof
    fix h assume "h \<in> set (snd (determine_heading_levels font_info))"
    then obtain t where t: "t \<in> set (emitted font_info)" "h = heading_for font_info t"
      unfolding leveler_refines by auto
    then have c: "t \<in> set font_info" "rank_of font_info (ft_size t) < 3"
      using emitted_candidates by blast+
    with t(2) have "size_to_level_of (sort_reverse (\<lambda>x. (ft_page x, ft_size x)) font_info)
        (ft_size t) = Some (level h)"
      by (simp add: level_map_rank heading_for_def)
    with c t(2) show "\<exists>t \<in> set font_info.
          rank_of font_info (ft_size t) < 3 \<and> h = heading_for font_info t
          \<and> size_to_level_of (sort_reverse (\<lambda>x. (ft_page x, ft_size x)) font_info) (ft_size t)
              = Some (level h)"
      by blast
  qed
next
  show "snd (determine_heading_levels (filter (\<lambda>t. rank_of font_info (ft_size t) < 3) font_info))
       = snd (determine_heading_levels font_info)"
    by (rule dropped_sizes_leave_no_heading)
next
  show "\<forall>s1 s2 l1 l2.
        s2 < s1
        \<and> size_to_level_of (sort_reverse (\<lambda>x. (ft_page x, ft_size x)) font_info) s1 = Some l1
        \<and> size_to_level_of (sort_reverse (\<lambda>x. (ft_page x, ft_size x)) font_info) s2 = Some l2
        \<longrightarrow> seniority l1 < seniority l2"
    using level_map_seniority by blast
next
  show "card (level ` set (snd (determine_heading_levels font_info))) \<le> 3"
    by (rule at_most_three_levels)
next
  show "level ` set (snd (determine_heading_levels font_info))
       \<subseteq> set (take (card (ft_size ` set font_info)) heading_levels)"
    using heading_levels_prefix by blast
qed

theorem levels_by_global_size_rank_witness:
  "18 \<in> ft_size ` set unordered_candidates \<and> rank_of unordered_candidates 18 = 0
   \<and> size_to_level_of (sort_reverse (\<lambda>x. (ft_page x, ft_size x)) unordered_candidates) 18
       = Some ''H1''
   \<and> rank_of unordered_candidates 12.5 = 3
   \<and> size_to_level_of (sort_reverse (\<lambda>x. (ft_page x, ft_size x)) unordered_candidates) 12.5
       = None
   \<and> filter (\<lambda>t. rank_of unordered_candidates (ft_size t) < 3) unordered_candidates
       = [(''Terms'', 16, False, 3), (''Scope'', 14, False, 2), (''Aims'', 18, True, 1),
          (''Method'', 18, False, 2)]
   \<and> snd (determine_heading_levels unordered_candidates)
       = [\<lparr>level = ''H1'', heading_text = ''Aims'', page_no = 1\<rparr>,
          \<lparr>level = ''H1'', heading_text = ''Method'', page_no = 2\<rparr>,
          \<lparr>level = ''H3'', heading_text = ''Scope'', page_no = 2\<rparr>,
          \<lparr>level = ''H2'', heading_text = ''Terms'', page_no = 3\<rparr>]"
proof -
  have m: "18 \<in> ft_size ` set unordered_candidates"
    by (simp add: unordered_candidates_def ft_size_def)
  have r0: "rank_of unordered_candidates 18 = 0"
    by code_simp
  have r3: "rank_of unordered_candidates 12.5 = 3"
    by code_simp
  have f: "filter (\<lambda>t. rank_of unordered_candidates (ft_size t) < 3) unordered_candidates
       = [(''Terms'', 16, False, 3), (''Scope'', 14, False, 2), (''Aims'', 18, True, 1),
          (''Method'', 18, False, 2)]"
    by code_simp
  have o: "snd (determine_heading_levels
          [(''Terms'', 16, False, 3), (''Scope'', 14, False, 2), (''Aims'', 18, True, 1),
           (''Method'', 18, False, 2)])
       = [\<lparr>level = ''H1'', heading_text = ''Aims'', page_no = 1\<rparr>,
          \<lparr>level = ''H1'', heading_text = ''Method'', page_no = 2\<rparr>,
          \<lparr>level = ''H3'', heading_text = ''Scope'', page_no = 2\<rparr>,
          \<lparr>level = ''H2'', heading_text = ''Terms'', page_no = 3\<rparr>]"
    by code_simp
  from levels_by_global_size_rank [of 18 unordered_candidates] m r0
  have h1: "size_to_level_of (sort_reverse (\<lambda>x. (ft_page x, ft_size x)) unordered_candidates) 18
       = Some ''H1''"
    by blast
  from levels_by_global_size_rank [of "12.5" unordered_candidates] r3
  have n: "size_to_level_of (sort_reverse (\<lambda>x. (ft_page x, ft_size x)) unordered_candidates) 12.5
       = None"
    by simp
  from levels_by_global_size_rank [of 18 unordered_candidates]
  have "snd (determine_heading_levels
          (filter (\<lambda>t. rank_of unordered_candidates (ft_size t) < 3) unordered_candidates))
       = snd (determine_heading_levels unordered_candidates)"
    by blast
  then have d: "snd (determine_heading_levels unordered_candidates)
       = [\<lparr>level = ''H1'', heading_text = ''Aims'', page_no = 1\<rparr>,
          \<lparr>level = ''H1'', heading_text = ''Method'', page_no = 2\<rparr>,
          \<lparr>level = ''H3'', heading_text = ''Scope'', page_no = 2\<rparr>,
          \<lparr>level = ''H2'', heading_text = ''Terms'', page_no = 3\<rparr>]"
    by (simp only: f o)
  from m r0 h1 r3 n f d show ?thesis
    by (simp only: simp_thms)
qed

section \<open>Properties of the title detector\<close>

subsection \<open>The title loops\<close>







subsection \<open>The title loops, with the key from zero\<close>





subsection \<open>The title detector and its contract\<close>




end
